theory Spec2Isabelle
  imports Complex_Main
begin

section \<open>The Openlayer how-to notebook (docs/howtos/integrations/openlayer.ipynb)\<close>

text \<open>
  The notebook is a Python script in cells. It calls into llama_index, ragas,
  nest_asyncio, datasets, pandas and openlayer. The two functions it defines itself,
  \<open>generate_single_response\<close> and \<open>generate_ragas_dataset\<close>, and the function
  \<open>build_query_engine\<close> are embedded below, followed by the cells in the order of
  the file. The libraries are a parameter of the model (the record \<open>sdk\<close>), except
  for the reads of pandas and \<open>Dataset.from_dict\<close>, whose results the script looks into.
\<close>

subsection \<open>Python values\<close>

text \<open>The values that the script puts into dataframes, dicts and configurations.\<close>

datatype pyval =
    PInt int
  | PStr string
  | PList "pyval list"
  | PDict "(string \<times> pyval) list"

text \<open>
  Exceptions. \<open>KeyError\<close> is what pandas and \<open>dict\<close> raise for a missing key.
  \<open>ArrowInvalid\<close> is what \<open>Dataset.from_dict\<close> raises for columns of different lengths,
  \<open>ArrowTypeError\<close> and \<open>OverflowError\<close> what it raises for a column it cannot convert
  (values of different types, an integer beyond 64 bits). \<open>SdkError\<close> stands for any
  other exception raised inside a library call.
\<close>

datatype exn =
    KeyError string
  | ArrowInvalid
  | ArrowTypeError
  | OverflowError
  | SdkError string

text \<open>\<open>ragas.testset.evolutions\<close>: the three question types the script imports.\<close>

datatype evolution = simple | reasoning | multi_context

text \<open>\<open>openlayer.tasks.TaskType\<close>: the member the script uses.\<close>

datatype task_type = LLM

text \<open>
  A llama_index response, as far as the script reads it: \<open>response.response\<close>,
  \<open>response.source_nodes\<close>, and for each source node \<open>c.node.get_content()\<close>.
\<close>

record base_node =
  get_content :: string

record node_with_score =
  node :: base_node

record response =
  response :: string
  source_nodes :: "node_with_score list"

text \<open>
  A pandas dataframe and a \<open>datasets.Dataset\<close> are tables: the columns in order, each
  with its name. A Python dict with string keys is an association list in insertion
  order.
\<close>

type_synonym dataframe = "(string \<times> pyval list) list"
type_synonym dataset = "(string \<times> pyval list) list"
type_synonym dict = "(string \<times> pyval) list"

definition wf_dataframe :: "dataframe \<Rightarrow> bool" where
  "wf_dataframe df \<longleftrightarrow>
     distinct (map fst df) \<and>
     list_all (\<lambda>c. length (snd c) = length (snd (hd df))) df"

subsection \<open>Calls into the libraries\<close>

text \<open>
  Every call the script makes into a library is logged with the arguments that are
  literals of the script (and, for \<open>query\<close>, the question), and with its outcome.
\<close>

datatype event =
    GitClone string
  | SetEnviron string string
  | SimpleDirectoryReader string nat
  | LoadData
  | WithOpenAI
  | GenerateWithLlamaindexDocs nat "(evolution \<times> rat) list"
  | TestsetToPandas
  | NestAsyncioApply
  | ServiceContextFromDefaults nat
  | OpenAIEmbedding
  | FromDocuments
  | AsQueryEngine nat
  | Query pyval
  | DatasetFromDict "string list"
  | DatasetToPandas
  | OpenlayerClient string
  | CreateProject string task_type string
  | AddDataframe dict
  | AddModel dict
  | Commit string
  | Push

datatype outcome = Returned | Raised exn

text \<open>
  The state of a run: \<open>world\<close> is everything the libraries own (the file system, the
  process environment, the remote models and services, the objects behind the handles
  the script holds); \<open>frames\<close> holds the dataframes the script has a reference to;
  \<open>trace\<close> is the log of library calls.
\<close>

record 'w state =
  world :: 'w
  frames :: "nat \<Rightarrow> dataframe"
  next_frame :: nat
  trace :: "(event \<times> outcome) list"

type_synonym ('w, 'a) script = "'w state \<Rightarrow> (exn + 'a) \<times> 'w state"

text \<open>
  The libraries. A call takes the world and gives back what it returns or raises,
  with the world after the call. \<open>'o\<close> is the type of the objects that the script only
  passes on (documents, generator, testset, index, query engine, client, project).
  \<open>from_dict_error\<close> is the conversion of the columns of a dict to Arrow arrays inside
  \<open>Dataset.from_dict\<close>: the exception it raises, if any. It depends on the columns
  alone.
\<close>

record ('w, 'o) sdk =
  git_clone :: "string \<Rightarrow> 'w \<Rightarrow> (exn + unit) \<times> 'w"
  environ_setitem :: "string \<Rightarrow> string \<Rightarrow> 'w \<Rightarrow> (exn + unit) \<times> 'w"
  simple_directory_reader :: "string \<Rightarrow> nat \<Rightarrow> 'w \<Rightarrow> (exn + 'o) \<times> 'w"
  load_data :: "'o \<Rightarrow> 'w \<Rightarrow> (exn + 'o) \<times> 'w"
  with_openai :: "'w \<Rightarrow> (exn + 'o) \<times> 'w"
  generate_with_llamaindex_docs ::
    "'o \<Rightarrow> 'o \<Rightarrow> nat \<Rightarrow> (evolution \<times> rat) list \<Rightarrow> 'w \<Rightarrow> (exn + 'o) \<times> 'w"
  testset_to_pandas :: "'o \<Rightarrow> 'w \<Rightarrow> (exn + dataframe) \<times> 'w"
  nest_asyncio_apply :: "'w \<Rightarrow> (exn + unit) \<times> 'w"
  service_context_from_defaults :: "nat \<Rightarrow> 'w \<Rightarrow> (exn + 'o) \<times> 'w"
  openai_embedding :: "'w \<Rightarrow> (exn + 'o) \<times> 'w"
  from_documents :: "'o \<Rightarrow> 'o \<Rightarrow> 'o \<Rightarrow> 'w \<Rightarrow> (exn + 'o) \<times> 'w"
  as_query_engine :: "'o \<Rightarrow> nat \<Rightarrow> 'w \<Rightarrow> (exn + 'o) \<times> 'w"
  query :: "'o \<Rightarrow> pyval \<Rightarrow> 'w \<Rightarrow> (exn + response) \<times> 'w"
  openlayer_client :: "string \<Rightarrow> 'w \<Rightarrow> (exn + 'o) \<times> 'w"
  create_project :: "'o \<Rightarrow> string \<Rightarrow> task_type \<Rightarrow> string \<Rightarrow> 'w \<Rightarrow> (exn + 'o) \<times> 'w"
  add_dataframe :: "'o \<Rightarrow> dataframe \<Rightarrow> dict \<Rightarrow> 'w \<Rightarrow> (exn + unit) \<times> 'w"
  add_model :: "'o \<Rightarrow> dict \<Rightarrow> 'w \<Rightarrow> (exn + unit) \<times> 'w"
  commit :: "'o \<Rightarrow> string \<Rightarrow> 'w \<Rightarrow> (exn + unit) \<times> 'w"
  push :: "'o \<Rightarrow> 'w \<Rightarrow> (exn + unit) \<times> 'w"
  from_dict_error :: "(string \<times> pyval list) list \<Rightarrow> exn option"

subsection \<open>Sequencing\<close>

text \<open>
  One statement after another: the second runs in the state the first leaves, unless
  the first raised. The script has no \<open>try\<close>, so there is no other combinator.
\<close>

definition returnS :: "'a \<Rightarrow> ('w, 'a) script" where
  "returnS x = (\<lambda>s. (Inr x, s))"

definition bindS :: "('w, 'a) script \<Rightarrow> ('a \<Rightarrow> ('w, 'b) script) \<Rightarrow> ('w, 'b) script" where
  "bindS m f = (\<lambda>s. case m s of (Inl e, s') \<Rightarrow> (Inl e, s') | (Inr x, s') \<Rightarrow> f x s')"

definition outcome_of :: "exn + 'a \<Rightarrow> outcome" where
  "outcome_of r = (case r of Inl e \<Rightarrow> Raised e | Inr x \<Rightarrow> Returned)"

text \<open>A library call: it changes the world, and it is logged.\<close>

definition call :: "event \<Rightarrow> ('w \<Rightarrow> (exn + 'a) \<times> 'w) \<Rightarrow> ('w, 'a) script" where
  "call ev f = (\<lambda>s. case f (world s) of
     (r, w') \<Rightarrow> (r, s\<lparr>world := w', trace := trace s @ [(ev, outcome_of r)]\<rparr>))"

text \<open>A list comprehension \<open>[f(x) for x in xs]\<close>: left to right, stopping at a raise.\<close>

fun list_comp :: "('a \<Rightarrow> ('w, 'b) script) \<Rightarrow> 'a list \<Rightarrow> ('w, 'b list) script" where
  "list_comp f [] = returnS []"
| "list_comp f (x # xs) =
     bindS (f x) (\<lambda>y. bindS (list_comp f xs) (\<lambda>ys. returnS (y # ys)))"

subsection \<open>pandas, dict and datasets\<close>

text \<open>
  \<open>test_df["question"].values\<close> and \<open>test_df["ground_truth"].values.tolist()\<close>: the
  values of a column of the dataframe behind a reference; \<open>KeyError\<close> when the frame
  has no such column. Reading changes nothing. This is the read of a frame whose
  column labels are distinct, as the frames that \<open>to_pandas\<close> gives are (for a label
  that occurs twice pandas gives a block of columns, which is not modelled); the
  properties of the dataset below are stated for such frames.
\<close>

definition getitem :: "nat \<Rightarrow> string \<Rightarrow> ('w, pyval list) script" where
  "getitem df col = (\<lambda>s. case map_of (frames s df) col of
     None \<Rightarrow> (Inl (KeyError col), s)
   | Some c \<Rightarrow> (Inr c, s))"

text \<open>\<open>d[key]\<close> on a dict.\<close>

definition dict_getitem :: "dict \<Rightarrow> string \<Rightarrow> ('w, pyval) script" where
  "dict_getitem d k = (\<lambda>s. case map_of d k of
     None \<Rightarrow> (Inl (KeyError k), s)
   | Some v \<Rightarrow> (Inr v, s))"

text \<open>A new dataframe object: it is stored, and the script gets the reference.\<close>

definition new_frame :: "dataframe \<Rightarrow> ('w, nat) script" where
  "new_frame df = (\<lambda>s. (Inr (next_frame s),
     s\<lparr>frames := (frames s)(next_frame s := df), next_frame := Suc (next_frame s)\<rparr>))"

definition read_frame :: "nat \<Rightarrow> ('w, dataframe) script" where
  "read_frame df = (\<lambda>s. (Inr (frames s df), s))"

text \<open>\<open>test_df.head()\<close>: the first five rows, as a value to display.\<close>

definition df_head :: "nat \<Rightarrow> ('w, dataframe) script" where
  "df_head df = (\<lambda>s. (Inr (map (\<lambda>c. (fst c, take 5 (snd c))) (frames s df)), s))"

text \<open>
  \<open>Dataset.from_dict\<close> of the datasets library: a table with one column for each key of
  the dict, in the order of the keys. It first converts every column, and raises what
  the conversion raises; it then raises \<open>ArrowInvalid\<close> when the columns differ in
  length.
\<close>

fun columns_aligned :: "(string \<times> pyval list) list \<Rightarrow> bool" where
  "columns_aligned [] = True"
| "columns_aligned (c # cs) = list_all (\<lambda>c'. length (snd c') = length (snd c)) cs"

definition from_dict_result ::
  "((string \<times> pyval list) list \<Rightarrow> exn option) \<Rightarrow> (string \<times> pyval list) list \<Rightarrow> exn + dataset" where
  "from_dict_result conv d =
     (case conv d of
        Some e \<Rightarrow> Inl e
      | None \<Rightarrow> if columns_aligned d then Inr d else Inl ArrowInvalid)"

definition from_dict :: "('w, 'o) sdk \<Rightarrow> (string \<times> pyval list) list \<Rightarrow> ('w, dataset) script" where
  "from_dict lib d = call (DatasetFromDict (map fst d))
     (\<lambda>w. (from_dict_result (from_dict_error lib) d, w))"

text \<open>\<open>Dataset.to_pandas\<close>: a new dataframe with the columns of the dataset.\<close>

definition dataset_to_pandas :: "dataset \<Rightarrow> ('w, nat) script" where
  "dataset_to_pandas ds = bindS (call DatasetToPandas (\<lambda>w. (Inr ds, w))) new_frame"

subsection \<open>The functions the notebook defines\<close>

definition build_query_engine :: "('w, 'o) sdk \<Rightarrow> 'o \<Rightarrow> ('w, 'o) script" where
  "build_query_engine lib documents =
     bindS (call (ServiceContextFromDefaults 512) (service_context_from_defaults lib 512))
       (\<lambda>service_context.
     bindS (call OpenAIEmbedding (openai_embedding lib)) (\<lambda>embed_model.
     bindS (call FromDocuments (from_documents lib documents service_context embed_model))
       (\<lambda>vector_index.
     bindS (call (AsQueryEngine 2) (as_query_engine lib vector_index 2)) (\<lambda>query_engine.
     returnS query_engine))))"

definition generate_single_response :: "('w, 'o) sdk \<Rightarrow> 'o \<Rightarrow> pyval \<Rightarrow> ('w, dict) script" where
  "generate_single_response lib query_engine question =
     bindS (call (Query question) (query lib query_engine question)) (\<lambda>r.
     returnS [(''answer'', PStr (response r)),
              (''contexts'', PList (map (\<lambda>c. PStr (get_content (node c))) (source_nodes r)))])"

definition generate_ragas_dataset :: "('w, 'o) sdk \<Rightarrow> 'o \<Rightarrow> nat \<Rightarrow> ('w, dataset) script" where
  "generate_ragas_dataset lib query_engine test_df =
     bindS (getitem test_df ''question'') (\<lambda>test_questions.
     bindS (list_comp (\<lambda>q. generate_single_response lib query_engine q) test_questions)
       (\<lambda>responses.
     bindS (list_comp (\<lambda>r. dict_getitem r ''answer'') responses) (\<lambda>answers.
     bindS (list_comp (\<lambda>r. dict_getitem r ''contexts'') responses) (\<lambda>contexts.
     bindS (getitem test_df ''ground_truth'') (\<lambda>ground_truth.
     from_dict lib [(''question'', test_questions),
                (''answer'', answers),
                (''contexts'', contexts),
                (''ground_truth'', ground_truth)])))))"

subsection \<open>The literals of the cells\<close>

definition distribution :: "(evolution \<times> rat) list" where
  "distribution = [(simple, 0.5), (reasoning, 0.25), (multi_context, 0.25)]"

definition question :: pyval where
  "question = PStr ''What are some strategies proposed to enhance the in-context learning capability of language models?''"

definition validation_dataset_config :: dict where
  "validation_dataset_config =
     [(''contextColumnName'', PStr ''contexts''),
      (''questionColumnName'', PStr ''question''),
      (''inputVariableNames'', PList [PStr ''question'']),
      (''label'', PStr ''validation''),
      (''outputColumnName'', PStr ''answer''),
      (''groundTruthColumnName'', PStr ''ground_truth'')]"

definition model_config :: dict where
  "model_config =
     [(''inputVariableNames'', PList [PStr ''question'']),
      (''modelType'', PStr ''shell''),
      (''metadata'', PDict [(''top_k'', PInt 2), (''chunk_size'', PInt 512),
                           (''embeddings'', PStr ''OpenAI'')])]"

subsection \<open>The cells, top to bottom\<close>

text \<open>
  A run of the notebook from the first cell to the last: a cell that raises ends the
  run. The \<open>import\<close> statements and the three \<open>def\<close> statements do nothing that a
  later cell observes other than binding the names, so they are not steps of the
  model; every other statement of the code cells is, in the order of the file.
\<close>

definition notebook :: "('w, 'o) sdk \<Rightarrow> ('w, unit) script" where
  "notebook lib =
     bindS (call (GitClone ''https://huggingface.co/datasets/explodinggradients/prompt-engineering-papers'')
              (git_clone lib ''https://huggingface.co/datasets/explodinggradients/prompt-engineering-papers''))
       (\<lambda>_.
     bindS (call (SetEnviron ''OPENAI_API_KEY'' ''YOUR_OPENAI_API_KEY_HERE'')
              (environ_setitem lib ''OPENAI_API_KEY'' ''YOUR_OPENAI_API_KEY_HERE'')) (\<lambda>_.
     bindS (call (SimpleDirectoryReader ''./prompt-engineering-papers'' 2)
              (simple_directory_reader lib ''./prompt-engineering-papers'' 2)) (\<lambda>reader.
     bindS (call LoadData (load_data lib reader)) (\<lambda>documents.
     bindS (call WithOpenAI (with_openai lib)) (\<lambda>generator.
     bindS (call (GenerateWithLlamaindexDocs 10 distribution)
              (generate_with_llamaindex_docs lib generator documents 10 distribution))
       (\<lambda>testset.
     bindS (bindS (call TestsetToPandas (testset_to_pandas lib testset)) new_frame)
       (\<lambda>test_df.
     bindS (df_head test_df) (\<lambda>_.
     bindS (call NestAsyncioApply (nest_asyncio_apply lib)) (\<lambda>_.
     bindS (build_query_engine lib documents) (\<lambda>query_engine.
     bindS (generate_single_response lib query_engine question) (\<lambda>_.
     bindS (generate_ragas_dataset lib query_engine test_df) (\<lambda>ragas_dataset.
     bindS (dataset_to_pandas ragas_dataset) (\<lambda>ragas_df.
     bindS (call (OpenlayerClient ''YOUR_OPENLAYER_API_KEY_HERE'')
              (openlayer_client lib ''YOUR_OPENLAYER_API_KEY_HERE'')) (\<lambda>client.
     bindS (call (CreateProject ''My-Rag-Project'' LLM
                    ''Evaluating an LLM used for product development.'')
              (create_project lib client ''My-Rag-Project'' LLM
                    ''Evaluating an LLM used for product development.'')) (\<lambda>project.
     bindS (bindS (read_frame ragas_df) (\<lambda>dataset_df.
              call (AddDataframe validation_dataset_config)
                (add_dataframe lib project dataset_df validation_dataset_config))) (\<lambda>_.
     bindS (call (AddModel model_config) (add_model lib project model_config)) (\<lambda>_.
     bindS (call (Commit ''Initial commit!'') (commit lib project ''Initial commit!'')) (\<lambda>_.
     call Push (push lib project)))))))))))))))))))"

subsection \<open>What the query engine replies\<close>

text \<open>
  \<open>replies\<close> asks the questions one by one, in order, each in the world the one
  before has left, and lists what the engine returned or raised; \<open>world_after\<close> is
  the world after these queries. They are written from \<open>query\<close> alone, to state what
  \<open>generate_ragas_dataset\<close> is compared with.
\<close>

fun replies :: "('w, 'o) sdk \<Rightarrow> 'o \<Rightarrow> pyval list \<Rightarrow> 'w \<Rightarrow> (exn + response) list" where
  "replies lib qe [] w = []"
| "replies lib qe (q # qs) w = fst (query lib qe q w) # replies lib qe qs (snd (query lib qe q w))"

fun world_after :: "('w, 'o) sdk \<Rightarrow> 'o \<Rightarrow> pyval list \<Rightarrow> 'w \<Rightarrow> 'w" where
  "world_after lib qe [] w = w"
| "world_after lib qe (q # qs) w = world_after lib qe qs (snd (query lib qe q w))"

text \<open>
  \<open>collect\<close> gives the values of a list of results up to the first raise, as a list
  comprehension does; \<open>asked\<close> counts the results up to and including that raise.
\<close>

fun collect :: "(exn + 'a) list \<Rightarrow> exn + 'a list" where
  "collect [] = Inr []"
| "collect (Inl e # rs) = Inl e"
| "collect (Inr x # rs) = (case collect rs of Inl e \<Rightarrow> Inl e | Inr xs \<Rightarrow> Inr (x # xs))"

fun asked :: "(exn + 'a) list \<Rightarrow> nat" where
  "asked [] = 0"
| "asked (Inl e # rs) = 1"
| "asked (Inr x # rs) = Suc (asked rs)"

text \<open>
  The two entries that \<open>generate_single_response\<close> makes of a response, and the dict
  it returns.
\<close>

definition answer_of :: "response \<Rightarrow> pyval" where
  "answer_of r = PStr (response r)"

definition contexts_of :: "response \<Rightarrow> pyval" where
  "contexts_of r = PList (map (\<lambda>c. PStr (get_content (node c))) (source_nodes r))"

definition response_dict :: "response \<Rightarrow> dict" where
  "response_dict r = [(''answer'', answer_of r), (''contexts'', contexts_of r)]"

text \<open>
  The log entries of the queries, the state after the queries of
  \<open>generate_ragas_dataset\<close>, and the table it builds from the questions, the
  responses and the ground truth.
\<close>

definition query_log :: "pyval list \<Rightarrow> (exn + response) list \<Rightarrow> (event \<times> outcome) list" where
  "query_log qs rs = map (\<lambda>(q, r). (Query q, outcome_of r)) (zip qs rs)"

definition after_queries :: "('w, 'o) sdk \<Rightarrow> 'o \<Rightarrow> pyval list \<Rightarrow> 'w state \<Rightarrow> 'w state" where
  "after_queries lib qe qs s =
     s\<lparr>world := world_after lib qe (take (asked (replies lib qe qs (world s))) qs) (world s),
       trace := trace s @ query_log qs (take (asked (replies lib qe qs (world s)))
                   (replies lib qe qs (world s)))\<rparr>"

definition ragas_table :: "pyval list \<Rightarrow> response list \<Rightarrow> pyval list \<Rightarrow> dataset" where
  "ragas_table qs xs gt =
     [(''question'', qs), (''answer'', map answer_of xs),
      (''contexts'', map contexts_of xs), (''ground_truth'', gt)]"


text \<open>
  The questions of a dataframe (none when it has no such column), and a query engine
  whose \<open>query\<close> leaves the world as it is.
\<close>

definition questions_of :: "dataframe \<Rightarrow> pyval list" where
  "questions_of df = (case map_of df ''question'' of None \<Rightarrow> [] | Some qs \<Rightarrow> qs)"

definition query_keeps_world :: "('w, 'o) sdk \<Rightarrow> 'o \<Rightarrow> bool" where
  "query_keeps_world lib qe \<longleftrightarrow> (\<forall>q w. snd (query lib qe q w) = w)"

subsection \<open>The log of a run\<close>

text \<open>
  The calls of a log, without their outcomes.
\<close>

definition events :: "'w state \<Rightarrow> event list" where
  "events s = map fst (trace s)"

text \<open>
  \<open>raised_last\<close>: in a piece of log, no call but the last has raised, and what the
  last has raised, if anything, is the exception the run ends with. A script
  \<open>propagates\<close> when every run of it, from every state, adds such a piece to the log:
  no exception of a library call is swallowed or replaced.
\<close>

definition returned :: "event \<times> outcome \<Rightarrow> bool" where
  "returned c \<longleftrightarrow> snd c = Returned"

definition raised :: "exn + 'a \<Rightarrow> exn option" where
  "raised r = (case r of Inl e \<Rightarrow> Some e | Inr x \<Rightarrow> None)"

definition raised_last :: "(event \<times> outcome) list \<Rightarrow> exn option \<Rightarrow> bool" where
  "raised_last new r \<longleftrightarrow>
     list_all returned (butlast new) \<and>
     (new = [] \<or> (case snd (last new) of Returned \<Rightarrow> True | Raised e \<Rightarrow> r = Some e))"

definition propagates :: "('w, 'a) script \<Rightarrow> bool" where
  "propagates m \<longleftrightarrow>
     (\<forall>s. \<exists>new. trace (snd (m s)) = trace s @ new \<and> raised_last new (raised (fst (m s))))"

text \<open>
  \<open>emits m L\<close>: every run of \<open>m\<close> adds to the log the calls of a list of \<open>L\<close>, all
  of them when it returns and an initial part of them when it raises.
\<close>

definition conc :: "'a list set \<Rightarrow> 'a list set \<Rightarrow> 'a list set" where
  "conc A B = {a @ b | a b. a \<in> A \<and> b \<in> B}"

definition emits :: "('w, 'a) script \<Rightarrow> event list set \<Rightarrow> bool" where
  "emits m L \<longleftrightarrow>
     (\<forall>s r s'. m s = (r, s') \<longrightarrow>
        (\<exists>evs rest. evs @ rest \<in> L \<and> events s' = events s @ evs \<and>
                    ((\<exists>x. r = Inr x) \<longrightarrow> rest = [])))"

text \<open>
  The calls of a whole run of the notebook whose test dataframe has the questions
  \<open>qs\<close>, and the part of them before \<open>project.add_model\<close>.
\<close>

definition ragas_columns :: "string list" where
  "ragas_columns = [''question'', ''answer'', ''contexts'', ''ground_truth'']"

definition notebook_calls :: "pyval list \<Rightarrow> event list" where
  "notebook_calls qs =
     [GitClone ''https://huggingface.co/datasets/explodinggradients/prompt-engineering-papers'',
      SetEnviron ''OPENAI_API_KEY'' ''YOUR_OPENAI_API_KEY_HERE'',
      SimpleDirectoryReader ''./prompt-engineering-papers'' 2,
      LoadData,
      WithOpenAI,
      GenerateWithLlamaindexDocs 10 distribution,
      TestsetToPandas,
      NestAsyncioApply,
      ServiceContextFromDefaults 512,
      OpenAIEmbedding,
      FromDocuments,
      AsQueryEngine 2,
      Query question] @
     map Query qs @
     [DatasetFromDict ragas_columns,
      DatasetToPandas,
      OpenlayerClient ''YOUR_OPENLAYER_API_KEY_HERE'',
      CreateProject ''My-Rag-Project'' LLM ''Evaluating an LLM used for product development.'',
      AddDataframe validation_dataset_config,
      AddModel model_config,
      Commit ''Initial commit!'',
      Push]"

definition calls_before_add_model :: "pyval list \<Rightarrow> event list" where
  "calls_before_add_model qs =
     [GitClone ''https://huggingface.co/datasets/explodinggradients/prompt-engineering-papers'',
      SetEnviron ''OPENAI_API_KEY'' ''YOUR_OPENAI_API_KEY_HERE'',
      SimpleDirectoryReader ''./prompt-engineering-papers'' 2,
      LoadData,
      WithOpenAI,
      GenerateWithLlamaindexDocs 10 distribution,
      TestsetToPandas,
      NestAsyncioApply,
      ServiceContextFromDefaults 512,
      OpenAIEmbedding,
      FromDocuments,
      AsQueryEngine 2,
      Query question] @
     map Query qs @
     [DatasetFromDict ragas_columns,
      DatasetToPandas,
      OpenlayerClient ''YOUR_OPENLAYER_API_KEY_HERE'',
      CreateProject ''My-Rag-Project'' LLM ''Evaluating an LLM used for product development.'',
      AddDataframe validation_dataset_config]"

subsection \<open>The cells before and after generate_ragas_dataset\<close>







text \<open>
  A script \<open>grows\<close> the store of dataframes when it leaves every dataframe that exists
  as it is, and at most adds new ones.
\<close>

definition grows :: "('w, 'a) script \<Rightarrow> bool" where
  "grows m \<longleftrightarrow>
     (\<forall>s. next_frame s \<le> next_frame (snd (m s)) \<and>
          (\<forall>i < next_frame s. frames (snd (m s)) i = frames s i))"

subsection \<open>The steps of the script\<close>

text \<open>
  The five steps of the script, and the step a call belongs to. Cloning the papers,
  setting the environment variable, generating the test set and patching the event
  loop belong to none of the five.
\<close>

datatype step = Load | Build | Answer | Package | Upload




text \<open>
  The calls that set a variable of the environment or hand a key to a client.
\<close>

fun credential :: "event \<Rightarrow> bool" where
  "credential (SetEnviron k v) = True"
| "credential (OpenlayerClient key) = True"
| "credential _ = False"

subsection \<open>Concrete libraries\<close>

text \<open>
  A library whose calls all return, counting the calls in the world, with a test
  dataframe of two rows; one whose query engine raises on the second question; and one
  whose query engine leaves the world alone.
\<close>

definition demo_frame :: dataframe where
  "demo_frame =
     [(''question'', [PStr ''q1'', PStr ''q2'']),
      (''contexts'', [PList [PStr ''c1''], PList [PStr ''c2'']]),
      (''ground_truth'', [PStr ''g1'', PStr ''g2'']),
      (''evolution_type'', [PStr ''simple'', PStr ''reasoning''])]"

definition demo_reply :: "pyval \<Rightarrow> response" where
  "demo_reply q = \<lparr>response = (case q of PStr t \<Rightarrow> ''re: '' @ t | _ \<Rightarrow> ''none''),
                  source_nodes = [\<lparr>node = \<lparr>get_content = ''passage''\<rparr>\<rparr>]\<rparr>"

definition demo_sdk :: "(nat, nat) sdk" where
  "demo_sdk = \<lparr>
     git_clone = (\<lambda>url w. (Inr (), Suc w)),
     environ_setitem = (\<lambda>k v w. (Inr (), Suc w)),
     simple_directory_reader = (\<lambda>dir n w. (Inr 1, Suc w)),
     load_data = (\<lambda>reader w. (Inr 2, Suc w)),
     with_openai = (\<lambda>w. (Inr 3, Suc w)),
     generate_with_llamaindex_docs = (\<lambda>g d n ds w. (Inr 4, Suc w)),
     testset_to_pandas = (\<lambda>t w. (Inr demo_frame, Suc w)),
     nest_asyncio_apply = (\<lambda>w. (Inr (), Suc w)),
     service_context_from_defaults = (\<lambda>n w. (Inr 5, Suc w)),
     openai_embedding = (\<lambda>w. (Inr 6, Suc w)),
     from_documents = (\<lambda>d c e w. (Inr 7, Suc w)),
     as_query_engine = (\<lambda>i k w. (Inr 8, Suc w)),
     query = (\<lambda>qe q w. (Inr (demo_reply q), Suc w)),
     openlayer_client = (\<lambda>key w. (Inr 9, Suc w)),
     create_project = (\<lambda>c n t d w. (Inr 10, Suc w)),
     add_dataframe = (\<lambda>p df cfg w. (Inr (), Suc w)),
     add_model = (\<lambda>p cfg w. (Inr (), Suc w)),
     commit = (\<lambda>p m w. (Inr (), Suc w)),
     push = (\<lambda>p w. (Inr (), Suc w)),
     from_dict_error = (\<lambda>d. None)\<rparr>"

definition failing_sdk :: "(nat, nat) sdk" where
  "failing_sdk = demo_sdk\<lparr>query := (\<lambda>qe q w.
     if q = PStr ''q2'' then (Inl (SdkError ''timeout''), Suc w)
     else (Inr (demo_reply q), Suc w))\<rparr>"

definition pure_sdk :: "(nat, nat) sdk" where
  "pure_sdk = demo_sdk\<lparr>query := (\<lambda>qe q w. (Inr (demo_reply q), w))\<rparr>"

definition demo_state :: "nat \<Rightarrow> nat state" where
  "demo_state w = \<lparr>world = w, frames = (\<lambda>_. [])(0 := demo_frame), next_frame = 1, trace = []\<rparr>"

definition init_state :: "nat state" where
  "init_state = \<lparr>world = 0, frames = (\<lambda>_. []), next_frame = 0, trace = []\<rparr>"

definition demo_dataset :: dataset where
  "demo_dataset =
     [(''question'', [PStr ''q1'', PStr ''q2'']),
      (''answer'', [PStr ''re: q1'', PStr ''re: q2'']),
      (''contexts'', [PList [PStr ''passage''], PList [PStr ''passage'']]),
      (''ground_truth'', [PStr ''g1'', PStr ''g2''])]"

section \<open>Properties\<close>

subsection \<open>The run of generate_ragas_dataset\<close>

lemma single_response_run:
  "generate_single_response lib qe q s =
     (map_sum id response_dict (fst (query lib qe q (world s))),
      s\<lparr>world := snd (query lib qe q (world s)),
        trace := trace s @ [(Query q, outcome_of (fst (query lib qe q (world s))))]\<rparr>)"
  by (cases "query lib qe q (world s)"; cases "fst (query lib qe q (world s))")
     (simp_all add: generate_single_response_def bindS_def call_def returnS_def
        answer_of_def contexts_of_def response_dict_def)

lemma responses_run:
  "list_comp (generate_single_response lib qe) qs s =
     (map_sum id (map response_dict) (collect (replies lib qe qs (world s))),
      s\<lparr>world := world_after lib qe (take (asked (replies lib qe qs (world s))) qs) (world s),
        trace := trace s @ query_log qs (take (asked (replies lib qe qs (world s)))
                   (replies lib qe qs (world s)))\<rparr>)"
proof (induction qs arbitrary: s)
  case Nil
  show ?case by (simp add: returnS_def query_log_def)
next
  case (Cons q qs)
  let ?s1 = "s\<lparr>world := snd (query lib qe q (world s)),
               trace := trace s @ [(Query q, outcome_of (fst (query lib qe q (world s))))]\<rparr>"
  have step: "generate_single_response lib qe q s =
      (map_sum id response_dict (fst (query lib qe q (world s))), ?s1)"
    by (rule single_response_run)
  show ?case
  proof (cases "fst (query lib qe q (world s))")
    case (Inl e)
    then show ?thesis
      by (simp add: bindS_def step query_log_def)
  next
    case (Inr r)
    have rest: "list_comp (generate_single_response lib qe) qs ?s1 =
      (map_sum id (map response_dict) (collect (replies lib qe qs (world ?s1))),
       ?s1\<lparr>world := world_after lib qe (take (asked (replies lib qe qs (world ?s1))) qs) (world ?s1),
          trace := trace ?s1 @ query_log qs (take (asked (replies lib qe qs (world ?s1)))
                   (replies lib qe qs (world ?s1)))\<rparr>)"
      by (rule Cons.IH)
    show ?thesis
      using Inr rest
      by (cases "collect (replies lib qe qs (snd (query lib qe q (world s))))")
         (simp_all add: bindS_def step returnS_def query_log_def)
  qed
qed

lemma answers_run:
  "list_comp (\<lambda>r. dict_getitem r ''answer'') (map response_dict xs) s = (Inr (map answer_of xs), s)"
  by (induction xs) (simp_all add: returnS_def bindS_def dict_getitem_def response_dict_def)

lemma contexts_run:
  "list_comp (\<lambda>r. dict_getitem r ''contexts'') (map response_dict xs) s = (Inr (map contexts_of xs), s)"
  by (induction xs) (simp_all add: returnS_def bindS_def dict_getitem_def response_dict_def)

lemma length_replies: "length (replies lib qe qs w) = length qs"
  by (induction qs arbitrary: w) simp_all

lemma collect_Inr_length: "collect rs = Inr xs \<Longrightarrow> length xs = length rs"
  by (induction rs arbitrary: xs rule: collect.induct) (auto split: sum.splits)

lemma collect_map_Inr: "collect (map Inr xs) = Inr xs"
  by (induction xs) simp_all

lemma collect_Inr_map: "collect rs = Inr xs \<Longrightarrow> rs = map Inr xs"
  by (induction rs arbitrary: xs rule: collect.induct) (auto split: sum.splits)

lemma collect_first_raise: "collect (map Inr xs @ Inl e # rest) = Inl e"
  by (induction xs) simp_all

lemma after_queries_sel [simp]:
  "frames (after_queries lib qe qs s) = frames s"
  "next_frame (after_queries lib qe qs s) = next_frame s"
  by (simp_all add: after_queries_def)

lemma ragas_dataset_no_question:
  assumes "map_of (frames s df) ''question'' = None"
  shows "generate_ragas_dataset lib qe df s = (Inl (KeyError ''question''), s)"
  using assms by (simp add: generate_ragas_dataset_def bindS_def getitem_def)

lemma ragas_dataset_run:
  assumes q: "map_of (frames s df) ''question'' = Some qs"
  shows "generate_ragas_dataset lib qe df s =
     (case collect (replies lib qe qs (world s)) of
        Inl e \<Rightarrow> (Inl e, after_queries lib qe qs s)
      | Inr xs \<Rightarrow>
          (case map_of (frames s df) ''ground_truth'' of
             None \<Rightarrow> (Inl (KeyError ''ground_truth''), after_queries lib qe qs s)
           | Some gt \<Rightarrow>
               (from_dict_result (from_dict_error lib) (ragas_table qs xs gt),
                (after_queries lib qe qs s)\<lparr>trace := trace (after_queries lib qe qs s) @
                  [(DatasetFromDict [''question'', ''answer'', ''contexts'', ''ground_truth''],
                    outcome_of (from_dict_result (from_dict_error lib)
                      (ragas_table qs xs gt)))]\<rparr>)))"
proof -
  let ?rs = "replies lib qe qs (world s)"
  let ?s1 = "after_queries lib qe qs s"
  have comp: "list_comp (generate_single_response lib qe) qs s =
      (map_sum id (map response_dict) (collect ?rs), ?s1)"
    by (simp add: responses_run after_queries_def)
  show ?thesis
  proof (cases "collect ?rs")
    case (Inl e)
    then show ?thesis
      using q comp by (simp add: generate_ragas_dataset_def bindS_def getitem_def)
  next
    case (Inr xs)
    have len: "length xs = length qs"
      using collect_Inr_length [OF Inr] by (simp add: length_replies)
    show ?thesis
    proof (cases "map_of (frames s df) ''ground_truth''")
      case None
      then show ?thesis
        using q comp Inr
        by (simp add: generate_ragas_dataset_def bindS_def getitem_def answers_run contexts_run)
    next
      case (Some gt)
      then show ?thesis
        using q comp Inr
        by (simp add: generate_ragas_dataset_def bindS_def getitem_def answers_run contexts_run
              from_dict_def call_def ragas_table_def)
    qed
  qed
qed


lemma replies_nth:
  "i < length qs \<Longrightarrow>
   replies lib qe qs w ! i = fst (query lib qe (qs ! i) (world_after lib qe (take i qs) w))"
proof (induction qs arbitrary: i w)
  case Nil
  then show ?case by simp
next
  case (Cons q qs)
  then show ?case by (cases i) simp_all
qed

lemma query_log_returned:
  "length xs = length qs \<Longrightarrow>
   query_log qs (map Inr xs) = map (\<lambda>q. (Query q, Returned)) qs"
  by (induction qs xs rule: list_induct2') (simp_all add: query_log_def outcome_of_def)

lemma asked_map_Inr: "asked (map Inr xs) = length xs"
  by (induction xs) simp_all

lemma from_dict_result_Inr:
  "from_dict_result conv d = Inr ds \<longleftrightarrow> conv d = None \<and> columns_aligned d \<and> ds = d"
  by (auto simp: from_dict_result_def split: option.splits)

lemma columns_aligned_table:
  "columns_aligned (ragas_table qs xs gt) \<longleftrightarrow> length xs = length qs \<and> length gt = length qs"
  by (simp add: ragas_table_def)

lemma ragas_dataset_InrD:
  assumes run: "generate_ragas_dataset lib qe df s = (Inr ds, s')"
  shows "\<exists>qs xs gt.
     map_of (frames s df) ''question'' = Some qs \<and>
     map_of (frames s df) ''ground_truth'' = Some gt \<and>
     replies lib qe qs (world s) = map Inr xs \<and>
     length xs = length qs \<and> length gt = length qs \<and>
     from_dict_error lib (ragas_table qs xs gt) = None \<and>
     ds = ragas_table qs xs gt \<and>
     s' = s\<lparr>world := world_after lib qe qs (world s),
            trace := trace s @ map (\<lambda>q. (Query q, Returned)) qs @
              [(DatasetFromDict [''question'', ''answer'', ''contexts'', ''ground_truth''],
                Returned)]\<rparr>"
proof (cases "map_of (frames s df) ''question''")
  case None
  with run show ?thesis by (simp add: ragas_dataset_no_question)
next
  case (Some qs)
  note eq = ragas_dataset_run [OF Some, of lib qe]
  show ?thesis
  proof (cases "collect (replies lib qe qs (world s))")
    case (Inl e)
    with run eq show ?thesis by simp
  next
    case (Inr xs)
    have rs: "replies lib qe qs (world s) = map Inr xs"
      by (rule collect_Inr_map [OF Inr])
    have len: "length xs = length qs"
      using collect_Inr_length [OF Inr] by (simp add: length_replies)
    show ?thesis
    proof (cases "map_of (frames s df) ''ground_truth''")
      case None
      with run eq Inr show ?thesis by simp
    next
      case gt: (Some gt)
      from run eq Inr gt have
        res: "from_dict_result (from_dict_error lib) (ragas_table qs xs gt) = Inr ds" and
        st: "s' = (after_queries lib qe qs s)\<lparr>trace := trace (after_queries lib qe qs s) @
                  [(DatasetFromDict [''question'', ''answer'', ''contexts'', ''ground_truth''],
                    outcome_of (from_dict_result (from_dict_error lib)
                      (ragas_table qs xs gt)))]\<rparr>"
        by auto
      from res have ok: "from_dict_error lib (ragas_table qs xs gt) = None"
        "length gt = length qs" "ds = ragas_table qs xs gt"
        by (simp_all add: from_dict_result_Inr columns_aligned_table)
      from st res rs len have "s' = s\<lparr>world := world_after lib qe qs (world s),
            trace := trace s @ map (\<lambda>q. (Query q, Returned)) qs @
              [(DatasetFromDict [''question'', ''answer'', ''contexts'', ''ground_truth''],
                Returned)]\<rparr>"
        by (simp add: after_queries_def asked_map_Inr query_log_returned outcome_of_def)
      with Some gt rs len ok show ?thesis by blast
    qed
  qed
qed

lemma wf_dataframe_lengths:
  assumes "wf_dataframe df" "map_of df a = Some xs" "map_of df b = Some ys"
  shows "length xs = length ys"
proof -
  have "(a, xs) \<in> set df" "(b, ys) \<in> set df"
    using assms by (auto dest: map_of_SomeD)
  moreover have "\<forall>c \<in> set df. length (snd c) = length (snd (hd df))"
    using assms(1) by (simp add: wf_dataframe_def list_all_iff)
  ultimately have "length (snd (a, xs)) = length (snd (hd df))"
    "length (snd (b, ys)) = length (snd (hd df))"
    by blast+
  then show ?thesis by simp
qed

lemma world_after_keeps: "query_keeps_world lib qe \<Longrightarrow> world_after lib qe qs w = w"
  by (induction qs arbitrary: w) (simp_all add: query_keeps_world_def)

lemma ragas_dataset_state:
  "frames (snd (generate_ragas_dataset lib qe df s)) = frames s \<and>
   next_frame (snd (generate_ragas_dataset lib qe df s)) = next_frame s \<and>
   (\<exists>k. world (snd (generate_ragas_dataset lib qe df s)) =
          world_after lib qe (take k (questions_of (frames s df))) (world s))"
proof (cases "map_of (frames s df) ''question''")
  case None
  have "world s = world_after lib qe (take 0 (questions_of (frames s df))) (world s)"
    by simp
  then have "\<exists>k. world s = world_after lib qe (take k (questions_of (frames s df))) (world s)"
    by (rule exI)
  with None show ?thesis
    by (simp add: ragas_dataset_no_question)
next
  case (Some qs)
  have w: "world (after_queries lib qe qs s) =
      world_after lib qe (take (asked (replies lib qe qs (world s))) qs) (world s)"
    by (simp add: after_queries_def)
  have qs: "questions_of (frames s df) = qs"
    by (simp add: questions_of_def Some)
  have "\<exists>k. world (after_queries lib qe qs s) =
      world_after lib qe (take k (questions_of (frames s df))) (world s)"
    unfolding qs w by blast
  then show ?thesis
    by (simp add: ragas_dataset_run [OF Some] split: sum.splits option.splits)
qed

subsection \<open>Runs on the concrete libraries\<close>

lemma demo_run:
  "generate_ragas_dataset demo_sdk 8 0 (demo_state w) =
     (Inr demo_dataset,
      \<lparr>world = Suc (Suc w), frames = (\<lambda>_. [])(0 := demo_frame), next_frame = 1,
       trace = [(Query (PStr ''q1''), Returned), (Query (PStr ''q2''), Returned),
                (DatasetFromDict [''question'', ''answer'', ''contexts'', ''ground_truth''],
                 Returned)]\<rparr>)"
  by (simp add: generate_ragas_dataset_def generate_single_response_def bindS_def getitem_def
       dict_getitem_def call_def returnS_def from_dict_def from_dict_result_def demo_sdk_def
       demo_state_def demo_frame_def demo_reply_def outcome_of_def demo_dataset_def)



lemma failing_replies:
  "replies failing_sdk 8 [PStr ''q1'', PStr ''q2''] 0 =
     map Inr [demo_reply (PStr ''q1'')] @ Inl (SdkError ''timeout'') # []"
  by (simp add: failing_sdk_def demo_sdk_def)

subsection \<open>The dataset\<close>

text \<open>
  Claim C1. For a dataframe with distinct column labels: whenever
  \<open>generate_ragas_dataset\<close> returns a dataset, it is exactly the table of the four
  columns question, answer, contexts and ground_truth, in this order, and holds nothing
  else: question and ground_truth are the columns of the dataframe, and the answer and
  contexts columns hold, for each question in turn, the \<open>response\<close> and the list of the
  contents of the source nodes of the response that the query engine returned to it.
  It returns a dataset for every well-formed dataframe that has the two columns, when
  the query engine answers every question and \<open>Dataset.from_dict\<close> can convert the
  four columns.
\<close>

theorem generate_ragas_dataset_columns:
  "(\<forall>ds s'. distinct (map fst (frames s df)) \<and>
      generate_ragas_dataset lib qe df s = (Inr ds, s') \<longrightarrow>
      map fst ds = [''question'', ''answer'', ''contexts'', ''ground_truth''] \<and>
      (\<exists>qs gt xs.
         map_of (frames s df) ''question'' = Some qs \<and>
         map_of (frames s df) ''ground_truth'' = Some gt \<and>
         replies lib qe qs (world s) = map Inr xs \<and>
         ds = [(''question'', qs),
               (''answer'', map (\<lambda>r. PStr (response r)) xs),
               (''contexts'',
                map (\<lambda>r. PList (map (\<lambda>n. PStr (get_content (node n))) (source_nodes r))) xs),
               (''ground_truth'', gt)])) \<and>
   (\<forall>qs gt xs. wf_dataframe (frames s df) \<and>
      map_of (frames s df) ''question'' = Some qs \<and>
      map_of (frames s df) ''ground_truth'' = Some gt \<and>
      replies lib qe qs (world s) = map Inr xs \<and>
      from_dict_error lib
        [(''question'', qs),
         (''answer'', map (\<lambda>r. PStr (response r)) xs),
         (''contexts'',
          map (\<lambda>r. PList (map (\<lambda>n. PStr (get_content (node n))) (source_nodes r))) xs),
         (''ground_truth'', gt)] = None \<longrightarrow>
      (\<exists>ds s'. generate_ragas_dataset lib qe df s = (Inr ds, s')))"
proof (intro conjI allI impI)
  fix ds s'
  assume "distinct (map fst (frames s df)) \<and>
      generate_ragas_dataset lib qe df s = (Inr ds, s')"
  then have run: "generate_ragas_dataset lib qe df s = (Inr ds, s')" ..
  from ragas_dataset_InrD [OF run] obtain qs xs gt where
    q: "map_of (frames s df) ''question'' = Some qs" and
    g: "map_of (frames s df) ''ground_truth'' = Some gt" and
    rs: "replies lib qe qs (world s) = map Inr xs" and
    ds: "ds = ragas_table qs xs gt"
    by blast
  show "map fst ds = [''question'', ''answer'', ''contexts'', ''ground_truth'']"
    by (simp add: ds ragas_table_def)
  have "ds = [(''question'', qs),
               (''answer'', map (\<lambda>r. PStr (response r)) xs),
               (''contexts'',
                map (\<lambda>r. PList (map (\<lambda>n. PStr (get_content (node n))) (source_nodes r))) xs),
               (''ground_truth'', gt)]"
    by (simp add: ds ragas_table_def answer_of_def [abs_def] contexts_of_def [abs_def])
  with q g rs show "\<exists>qs gt xs.
         map_of (frames s df) ''question'' = Some qs \<and>
         map_of (frames s df) ''ground_truth'' = Some gt \<and>
         replies lib qe qs (world s) = map Inr xs \<and>
         ds = [(''question'', qs),
               (''answer'', map (\<lambda>r. PStr (response r)) xs),
               (''contexts'',
                map (\<lambda>r. PList (map (\<lambda>n. PStr (get_content (node n))) (source_nodes r))) xs),
               (''ground_truth'', gt)]"
    by blast
next
  fix qs gt xs
  assume h: "wf_dataframe (frames s df) \<and>
      map_of (frames s df) ''question'' = Some qs \<and>
      map_of (frames s df) ''ground_truth'' = Some gt \<and>
      replies lib qe qs (world s) = map Inr xs \<and>
      from_dict_error lib
        [(''question'', qs),
         (''answer'', map (\<lambda>r. PStr (response r)) xs),
         (''contexts'',
          map (\<lambda>r. PList (map (\<lambda>n. PStr (get_content (node n))) (source_nodes r))) xs),
         (''ground_truth'', gt)] = None"
  then have len: "length gt = length qs"
    using wf_dataframe_lengths by blast
  from h have c: "collect (replies lib qe qs (world s)) = Inr xs"
    by (simp add: collect_map_Inr)
  have lx: "length xs = length qs"
    using collect_Inr_length [OF c] by (simp add: length_replies)
  from h have conv: "from_dict_error lib (ragas_table qs xs gt) = None"
    by (simp add: ragas_table_def answer_of_def [abs_def] contexts_of_def [abs_def])
  have "from_dict_result (from_dict_error lib) (ragas_table qs xs gt) = Inr (ragas_table qs xs gt)"
    using conv len lx by (simp add: from_dict_result_Inr columns_aligned_table)
  with h c show "\<exists>ds s'. generate_ragas_dataset lib qe df s = (Inr ds, s')"
    by (simp add: ragas_dataset_run)
qed

theorem generate_ragas_dataset_columns_witness:
  "wf_dataframe demo_frame \<and>
   distinct (map fst (frames (demo_state 0) 0)) \<and>
   from_dict_error demo_sdk demo_dataset = None \<and>
   (\<exists>s'. generate_ragas_dataset demo_sdk 8 0 (demo_state 0) = (Inr demo_dataset, s'))"
proof -
  note inst = generate_ragas_dataset_columns [of "demo_state 0" 0 demo_sdk 8]
  have wf: "wf_dataframe (frames (demo_state 0) 0)" "wf_dataframe demo_frame"
    "distinct (map fst (frames (demo_state 0) 0))"
    by (simp_all add: demo_state_def demo_frame_def wf_dataframe_def)
  have q: "map_of (frames (demo_state 0) 0) ''question'' = Some [PStr ''q1'', PStr ''q2'']"
    by (simp add: demo_state_def demo_frame_def)
  have g: "map_of (frames (demo_state 0) 0) ''ground_truth'' = Some [PStr ''g1'', PStr ''g2'']"
    by (simp add: demo_state_def demo_frame_def)
  have rs: "replies demo_sdk 8 [PStr ''q1'', PStr ''q2''] (world (demo_state 0)) =
      map Inr [demo_reply (PStr ''q1''), demo_reply (PStr ''q2'')]"
    by (simp add: demo_sdk_def)
  have conv: "from_dict_error demo_sdk d = None" for d
    by (simp add: demo_sdk_def)
  from inst wf(1) q g rs conv obtain ds s' where
    run: "generate_ragas_dataset demo_sdk 8 0 (demo_state 0) = (Inr ds, s')"
    by blast
  with inst wf(3) obtain qs gt xs where
    q': "map_of (frames (demo_state 0) 0) ''question'' = Some qs" and
    g': "map_of (frames (demo_state 0) 0) ''ground_truth'' = Some gt" and
    rs': "replies demo_sdk 8 qs (world (demo_state 0)) = map Inr xs" and
    ds: "ds = [(''question'', qs),
           (''answer'', map (\<lambda>r. PStr (response r)) xs),
           (''contexts'',
            map (\<lambda>r. PList (map (\<lambda>n. PStr (get_content (node n))) (source_nodes r))) xs),
           (''ground_truth'', gt)]"
    by blast
  from q q' g g' have eq: "qs = [PStr ''q1'', PStr ''q2'']" "gt = [PStr ''g1'', PStr ''g2'']"
    by simp_all
  have "(map Inr xs :: (exn + response) list) =
      map Inr [demo_reply (PStr ''q1''), demo_reply (PStr ''q2'')]"
    by (rule trans [OF rs' [unfolded eq, symmetric] rs])
  then have "xs = [demo_reply (PStr ''q1''), demo_reply (PStr ''q2'')]"
    by (rule map_injective) simp
  with ds eq have "ds = demo_dataset"
    by (simp add: demo_dataset_def demo_reply_def)
  with run wf conv show ?thesis by blast
qed

text \<open>
  Claim C2. For a dataframe with distinct column labels, the dataset is row-aligned
  with the dataframe: with \<open>n\<close> questions, the answer, contexts and ground_truth
  columns have \<open>n\<close> entries each; entry \<open>i\<close> of answer and of contexts is made from the
  response to question \<open>i\<close>, asked in the world that the queries for the questions
  before it have left; the ground_truth column is the one of the dataframe; and the
  queries logged during the call are the questions, one each, in order.
\<close>

theorem generate_ragas_dataset_row_aligned:
  assumes "distinct (map fst (frames s df))"
    and "generate_ragas_dataset lib qe df s = (Inr ds, s')"
  shows "\<exists>qs answers contexts gt.
     map_of (frames s df) ''question'' = Some qs \<and>
     map_of (frames s df) ''ground_truth'' = Some gt \<and>
     map_of ds ''question'' = Some qs \<and>
     map_of ds ''answer'' = Some answers \<and>
     map_of ds ''contexts'' = Some contexts \<and>
     map_of ds ''ground_truth'' = Some gt \<and>
     length answers = length qs \<and> length contexts = length qs \<and> length gt = length qs \<and>
     (\<forall>i < length qs. \<exists>r.
        fst (query lib qe (qs ! i) (world_after lib qe (take i qs) (world s))) = Inr r \<and>
        answers ! i = PStr (response r) \<and>
        contexts ! i = PList (map (\<lambda>n. PStr (get_content (node n))) (source_nodes r))) \<and>
     [e \<leftarrow> map fst (drop (length (trace s)) (trace s')). \<exists>q. e = Query q] = map Query qs"
proof -
  from ragas_dataset_InrD [OF assms(2)] obtain qs xs gt where
    q: "map_of (frames s df) ''question'' = Some qs" and
    g: "map_of (frames s df) ''ground_truth'' = Some gt" and
    rs: "replies lib qe qs (world s) = map Inr xs" and
    len: "length xs = length qs" "length gt = length qs" and
    ds: "ds = ragas_table qs xs gt" and
    s': "s' = s\<lparr>world := world_after lib qe qs (world s),
            trace := trace s @ map (\<lambda>q. (Query q, Returned)) qs @
              [(DatasetFromDict [''question'', ''answer'', ''contexts'', ''ground_truth''],
                Returned)]\<rparr>"
    by blast
  have nth: "\<forall>i < length qs. \<exists>r.
        fst (query lib qe (qs ! i) (world_after lib qe (take i qs) (world s))) = Inr r \<and>
        map answer_of xs ! i = PStr (response r) \<and>
        map contexts_of xs ! i = PList (map (\<lambda>n. PStr (get_content (node n))) (source_nodes r))"
  proof (intro allI impI)
    fix i assume i: "i < length qs"
    have "replies lib qe qs (world s) ! i = Inr (xs ! i)"
      using i len by (simp add: rs)
    then have "fst (query lib qe (qs ! i) (world_after lib qe (take i qs) (world s))) = Inr (xs ! i)"
      using i by (simp add: replies_nth)
    then show "\<exists>r.
        fst (query lib qe (qs ! i) (world_after lib qe (take i qs) (world s))) = Inr r \<and>
        map answer_of xs ! i = PStr (response r) \<and>
        map contexts_of xs ! i = PList (map (\<lambda>n. PStr (get_content (node n))) (source_nodes r))"
      using i len by (simp add: answer_of_def contexts_of_def)
  qed
  have tr: "[e \<leftarrow> map fst (drop (length (trace s)) (trace s')). \<exists>q. e = Query q] = map Query qs"
    by (simp add: s' filter_map o_def)
  show ?thesis
    using q g len nth tr by (simp add: ds ragas_table_def)
qed

theorem generate_ragas_dataset_row_aligned_witness:
  "distinct (map fst (frames (demo_state 0) 0)) \<and>
   generate_ragas_dataset demo_sdk 8 0 (demo_state 0) =
     (Inr demo_dataset,
      \<lparr>world = Suc (Suc 0), frames = (\<lambda>_. [])(0 := demo_frame), next_frame = 1,
       trace = [(Query (PStr ''q1''), Returned), (Query (PStr ''q2''), Returned),
                (DatasetFromDict [''question'', ''answer'', ''contexts'', ''ground_truth''],
                 Returned)]\<rparr>) \<and>
   (\<exists>answers contexts r.
     map_of demo_dataset ''answer'' = Some answers \<and>
     map_of demo_dataset ''contexts'' = Some contexts \<and>
     length answers = 2 \<and> length contexts = 2 \<and>
     fst (query demo_sdk 8 (PStr ''q2'') (world_after demo_sdk 8 [PStr ''q1''] 0)) = Inr r \<and>
     answers ! 1 = PStr (response r) \<and>
     contexts ! 1 = PList (map (\<lambda>n. PStr (get_content (node n))) (source_nodes r)))"
proof -
  have q: "map_of (frames (demo_state 0) 0) ''question'' = Some [PStr ''q1'', PStr ''q2'']"
    by (simp add: demo_state_def demo_frame_def)
  have w: "world (demo_state 0) = 0"
    by (simp add: demo_state_def)
  have d: "distinct (map fst (frames (demo_state 0) 0))"
    by (simp add: demo_state_def demo_frame_def)
  from generate_ragas_dataset_row_aligned [OF d demo_run [of 0]]
  obtain qs answers contexts where
    qs: "map_of (frames (demo_state 0) 0) ''question'' = Some qs" and
    a: "map_of demo_dataset ''answer'' = Some answers" and
    c: "map_of demo_dataset ''contexts'' = Some contexts" and
    len: "length answers = length qs" "length contexts = length qs" and
    nth: "\<forall>i < length qs. \<exists>r.
        fst (query demo_sdk 8 (qs ! i) (world_after demo_sdk 8 (take i qs) (world (demo_state 0))))
          = Inr r \<and>
        answers ! i = PStr (response r) \<and>
        contexts ! i = PList (map (\<lambda>n. PStr (get_content (node n))) (source_nodes r))"
    by blast
  from qs q have eq: "qs = [PStr ''q1'', PStr ''q2'']" by simp
  have "1 < length qs" by (simp add: eq)
  with nth obtain r where
    "fst (query demo_sdk 8 (qs ! 1) (world_after demo_sdk 8 (take 1 qs) (world (demo_state 0))))
          = Inr r"
    "answers ! 1 = PStr (response r)"
    "contexts ! 1 = PList (map (\<lambda>n. PStr (get_content (node n))) (source_nodes r))"
    by blast
  then have "fst (query demo_sdk 8 (PStr ''q2'') (world_after demo_sdk 8 [PStr ''q1''] 0)) = Inr r \<and>
     answers ! 1 = PStr (response r) \<and>
     contexts ! 1 = PList (map (\<lambda>n. PStr (get_content (node n))) (source_nodes r))"
    by (simp add: eq w)
  with a c len eq d demo_run [of 0] show ?thesis by auto
qed

subsection \<open>Exceptions\<close>

lemma raised_last_Nil [simp]: "raised_last [] r"
  by (simp add: raised_last_def)

lemma raised_last_single [simp]:
  "raised_last [(ev, outcome_of r)] (raised r)"
  by (cases r) (simp_all add: raised_last_def outcome_of_def raised_def)

lemma raised_last_None: "raised_last new None \<longleftrightarrow> list_all returned new"
  by (cases new rule: rev_cases) (auto simp: raised_last_def returned_def split: outcome.splits)

lemma raised_Inl [simp]: "raised (Inl e) = Some e"
  by (simp add: raised_def)

lemma raised_Inr [simp]: "raised (Inr x) = None"
  by (simp add: raised_def)

lemma raised_last_returned: "list_all returned xs \<Longrightarrow> raised_last xs r"
  by (cases xs rule: rev_cases) (auto simp: raised_last_def returned_def)

lemma raised_last_append:
  assumes "list_all returned xs" "raised_last ys r"
  shows "raised_last (xs @ ys) r"
proof (cases ys rule: rev_cases)
  case Nil
  with assms(1) show ?thesis by (simp add: raised_last_returned)
next
  case (snoc zs z)
  with assms show ?thesis by (simp add: raised_last_def butlast_append)
qed

lemma propagatesI:
  assumes "\<And>s r s'. m s = (r, s') \<Longrightarrow> \<exists>new. trace s' = trace s @ new \<and> raised_last new (raised r)"
  shows "propagates m"
  unfolding propagates_def
proof
  fix s
  show "\<exists>new. trace (snd (m s)) = trace s @ new \<and> raised_last new (raised (fst (m s)))"
    using assms [of s "fst (m s)" "snd (m s)"] by simp
qed

lemma propagatesD:
  assumes "propagates m" "m s = (r, s')"
  shows "\<exists>new. trace s' = trace s @ new \<and> raised_last new (raised r)"
  using assms unfolding propagates_def by (metis fst_conv snd_conv)

lemma propagates_return: "propagates (returnS x)"
  by (rule propagatesI) (simp add: returnS_def)

lemma propagates_call: "propagates (call ev f)"
  by (rule propagatesI) (auto simp: call_def split: prod.splits)

lemma propagates_getitem: "propagates (getitem df col)"
  by (rule propagatesI) (auto simp: getitem_def split: option.splits)

lemma propagates_dict_getitem: "propagates (dict_getitem d k)"
  by (rule propagatesI) (auto simp: dict_getitem_def split: option.splits)

lemma propagates_new_frame: "propagates (new_frame df)"
  by (rule propagatesI) (auto simp: new_frame_def)

lemma propagates_read_frame: "propagates (read_frame df)"
  by (rule propagatesI) (auto simp: read_frame_def)

lemma propagates_df_head: "propagates (df_head df)"
  by (rule propagatesI) (auto simp: df_head_def)

lemma propagates_bind:
  assumes m: "propagates m" and f: "\<And>x. propagates (f x)"
  shows "propagates (bindS m f)"
proof (rule propagatesI)
  fix s r s'
  assume run: "bindS m f s = (r, s')"
  show "\<exists>new. trace s' = trace s @ new \<and> raised_last new (raised r)"
  proof (cases "m s")
    case (Pair r1 s1)
    from propagatesD [OF m Pair] obtain new1 where
      l1: "trace s1 = trace s @ new1" "raised_last new1 (raised r1)" by blast
    show ?thesis
    proof (cases r1)
      case (Inl e)
      with run Pair have "r = Inl e" "s' = s1" by (simp_all add: bindS_def)
      with l1 Inl show ?thesis by simp
    next
      case (Inr x)
      with run Pair have "f x s1 = (r, s')" by (simp add: bindS_def)
      from propagatesD [OF f this] obtain new2 where
        l2: "trace s' = trace s1 @ new2" "raised_last new2 (raised r)" by blast
      from l1 Inr have "list_all returned new1"
        by (simp add: raised_last_None)
      with l2 have "raised_last (new1 @ new2) (raised r)"
        by (simp add: raised_last_append)
      with l1 l2 show ?thesis by auto
    qed
  qed
qed

lemma propagates_list_comp:
  assumes "\<And>x. propagates (f x)"
  shows "propagates (list_comp f xs)"
  by (induction xs) (simp_all add: propagates_return propagates_bind assms)

lemmas propagates_rules =
  propagates_bind propagates_call propagates_return propagates_getitem
  propagates_dict_getitem propagates_new_frame propagates_read_frame propagates_df_head propagates_list_comp

lemma propagates_single_response: "propagates (generate_single_response lib qe q)"
  unfolding generate_single_response_def by (intro propagates_rules)

lemma propagates_ragas_dataset: "propagates (generate_ragas_dataset lib qe df)"
  unfolding generate_ragas_dataset_def from_dict_def
  by (intro propagates_rules propagates_single_response)

lemma propagates_build_query_engine: "propagates (build_query_engine lib documents)"
  unfolding build_query_engine_def by (intro propagates_rules)

lemma propagates_notebook: "propagates (notebook lib)"
  unfolding notebook_def dataset_to_pandas_def
  by (intro propagates_rules propagates_single_response propagates_ragas_dataset
        propagates_build_query_engine)

text \<open>
  Claim C3. No operation of the notebook handles an exception: in every run of
  \<open>generate_single_response\<close>, of \<open>generate_ragas_dataset\<close>, of
  \<open>build_query_engine\<close> and of the whole notebook, a library call that raises is the
  last call of the run, and the run ends with the exception it raised. In particular,
  when \<open>query\<close> raises \<open>e\<close>, \<open>generate_single_response\<close> raises \<open>e\<close>; and when the
  query engine answers some questions and raises \<open>e\<close> on the next,
  \<open>generate_ragas_dataset\<close> raises \<open>e\<close>.
\<close>

theorem failures_propagate:
  "propagates (generate_single_response lib qe q) \<and>
   propagates (generate_ragas_dataset lib qe df) \<and>
   propagates (build_query_engine lib documents) \<and>
   propagates (notebook lib) \<and>
   (\<forall>e. fst (query lib qe q (world s)) = Inl e \<longrightarrow>
      fst (generate_single_response lib qe q s) = Inl e) \<and>
   (\<forall>qs xs e rest. map_of (frames s df) ''question'' = Some qs \<and>
      replies lib qe qs (world s) = map Inr xs @ Inl e # rest \<longrightarrow>
      fst (generate_ragas_dataset lib qe df s) = Inl e)"
proof (intro conjI allI impI)
  show "propagates (generate_single_response lib qe q)"
    by (rule propagates_single_response)
  show "propagates (generate_ragas_dataset lib qe df)"
    by (rule propagates_ragas_dataset)
  show "propagates (build_query_engine lib documents)"
    by (rule propagates_build_query_engine)
  show "propagates (notebook lib)"
    by (rule propagates_notebook)
next
  fix e
  assume "fst (query lib qe q (world s)) = Inl e"
  then show "fst (generate_single_response lib qe q s) = Inl e"
    by (simp add: single_response_run)
next
  fix qs xs e rest
  assume h: "map_of (frames s df) ''question'' = Some qs \<and>
      replies lib qe qs (world s) = map Inr xs @ Inl e # rest"
  then have "collect (replies lib qe qs (world s)) = Inl e"
    by (simp add: collect_first_raise)
  with h show "fst (generate_ragas_dataset lib qe df s) = Inl e"
    by (simp add: ragas_dataset_run)
qed

theorem failures_propagate_witness:
  "map_of (frames (demo_state 0) 0) ''question'' = Some [PStr ''q1'', PStr ''q2''] \<and>
   replies failing_sdk 8 [PStr ''q1'', PStr ''q2''] (world (demo_state 0)) =
     map Inr [demo_reply (PStr ''q1'')] @ Inl (SdkError ''timeout'') # [] \<and>
   fst (generate_ragas_dataset failing_sdk 8 0 (demo_state 0)) = Inl (SdkError ''timeout'')"
proof -
  have q: "map_of (frames (demo_state 0) 0) ''question'' = Some [PStr ''q1'', PStr ''q2'']"
    by (simp add: demo_state_def demo_frame_def)
  have rs: "replies failing_sdk 8 [PStr ''q1'', PStr ''q2''] (world (demo_state 0)) =
     map Inr [demo_reply (PStr ''q1'')] @ Inl (SdkError ''timeout'') # []"
    using failing_replies by (simp add: demo_state_def)
  from failures_propagate [of failing_sdk 8 "PStr ''q1''" 0 0 "demo_state 0"] q rs
  have "fst (generate_ragas_dataset failing_sdk 8 0 (demo_state 0)) = Inl (SdkError ''timeout'')"
    by blast
  with q rs show ?thesis by blast
qed

subsection \<open>The arguments\<close>

text \<open>
  Claim C6. \<open>generate_single_response\<close> and \<open>generate_ragas_dataset\<close> leave every
  dataframe as it is and create none, whether they return or raise. What they do to
  the world of the libraries is what the queries do: the world after
  \<open>generate_single_response\<close> is the world after its one query, and the world after
  \<open>generate_ragas_dataset\<close> is the world after the queries for an initial part of
  the questions. So when the query engine leaves the world as it is, both functions
  leave it as it is.
\<close>

theorem arguments_unchanged:
  "frames (snd (generate_single_response lib qe q s)) = frames s \<and>
   next_frame (snd (generate_single_response lib qe q s)) = next_frame s \<and>
   world (snd (generate_single_response lib qe q s)) = snd (query lib qe q (world s)) \<and>
   frames (snd (generate_ragas_dataset lib qe df s)) = frames s \<and>
   next_frame (snd (generate_ragas_dataset lib qe df s)) = next_frame s \<and>
   (\<exists>k. world (snd (generate_ragas_dataset lib qe df s)) =
          world_after lib qe (take k (questions_of (frames s df))) (world s)) \<and>
   (query_keeps_world lib qe \<longrightarrow>
      world (snd (generate_single_response lib qe q s)) = world s \<and>
      world (snd (generate_ragas_dataset lib qe df s)) = world s)"
proof -
  have a: "frames (snd (generate_single_response lib qe q s)) = frames s"
    "next_frame (snd (generate_single_response lib qe q s)) = next_frame s"
    "world (snd (generate_single_response lib qe q s)) = snd (query lib qe q (world s))"
    by (simp_all add: single_response_run)
  note b = ragas_dataset_state [of lib qe df s]
  have c: "world (snd (generate_single_response lib qe q s)) = world s \<and>
      world (snd (generate_ragas_dataset lib qe df s)) = world s"
    if "query_keeps_world lib qe"
    using that a(3) b by (auto simp: world_after_keeps) (simp add: query_keeps_world_def)
  from a b c show ?thesis by blast
qed

theorem arguments_unchanged_witness:
  "query_keeps_world pure_sdk 8 \<and>
   world (snd (generate_ragas_dataset pure_sdk 8 0 (demo_state 5))) = world (demo_state 5) \<and>
   frames (snd (generate_ragas_dataset pure_sdk 8 0 (demo_state 5))) 0 = demo_frame"
proof -
  have k: "query_keeps_world pure_sdk 8"
    by (simp add: query_keeps_world_def pure_sdk_def)
  have f: "frames (demo_state 5) 0 = demo_frame"
    by (simp add: demo_state_def)
  from arguments_unchanged [of pure_sdk 8 "PStr ''q1''" "demo_state 5" 0] k f
  show ?thesis by simp
qed

subsection \<open>Two runs\<close>




subsection \<open>The calls of a run of the notebook\<close>

lemma conc_single [simp]: "conc {a} {b} = {a @ b}"
  by (auto simp: conc_def)

lemma conc_single_range [simp]: "conc {a} (range f) = range (\<lambda>x. a @ f x)"
  by (auto simp: conc_def)

lemma conc_range_single [simp]: "conc (range f) {b} = range (\<lambda>x. f x @ b)"
  by (auto simp: conc_def)

lemma emitsI:
  assumes "\<And>s r s'. m s = (r, s') \<Longrightarrow>
     \<exists>evs rest. evs @ rest \<in> L \<and> events s' = events s @ evs \<and> ((\<exists>x. r = Inr x) \<longrightarrow> rest = [])"
  shows "emits m L"
  using assms unfolding emits_def by blast

lemma emitsD:
  assumes "emits m L" "m s = (r, s')"
  shows "\<exists>evs rest. evs @ rest \<in> L \<and> events s' = events s @ evs \<and> ((\<exists>x. r = Inr x) \<longrightarrow> rest = [])"
  using assms unfolding emits_def by blast

lemma emits_silent:
  assumes "\<And>s. trace (snd (m s)) = trace s"
  shows "emits m {[]}"
proof (rule emitsI)
  fix s r s'
  assume "m s = (r, s')"
  with assms [of s] have "events s' = events s @ []"
    by (simp add: events_def)
  then show "\<exists>evs rest. evs @ rest \<in> {[]} \<and> events s' = events s @ evs \<and>
      ((\<exists>x. r = Inr x) \<longrightarrow> rest = [])"
    by (intro exI [of _ "[]"]) simp
qed

lemma emits_return: "emits (returnS x) {[]}"
  by (rule emits_silent) (simp add: returnS_def)

lemma emits_getitem: "emits (getitem df col) {[]}"
  by (rule emits_silent) (simp add: getitem_def split: option.splits)

lemma emits_dict_getitem: "emits (dict_getitem d k) {[]}"
  by (rule emits_silent) (simp add: dict_getitem_def split: option.splits)

lemma emits_new_frame: "emits (new_frame df) {[]}"
  by (rule emits_silent) (simp add: new_frame_def)

lemma emits_read_frame: "emits (read_frame df) {[]}"
  by (rule emits_silent) (simp add: read_frame_def)

lemma emits_df_head: "emits (df_head df) {[]}"
  by (rule emits_silent) (simp add: df_head_def)

lemma emits_call: "emits (call ev f) {[ev]}"
proof (rule emitsI)
  fix s r s'
  assume "call ev f s = (r, s')"
  then have "events s' = events s @ [ev]"
    by (auto simp: call_def events_def split: prod.splits)
  then show "\<exists>evs rest. evs @ rest \<in> {[ev]} \<and> events s' = events s @ evs \<and>
      ((\<exists>x. r = Inr x) \<longrightarrow> rest = [])"
    by (intro exI [of _ "[ev]"] exI [of _ "[]"]) simp
qed

lemma emits_nonempty:
  assumes "emits m L"
  shows "\<exists>l. l \<in> L"
proof -
  obtain r s' where "m undefined = (r, s')" by (cases "m undefined")
  from emitsD [OF assms this] show ?thesis by blast
qed

lemma emits_bind:
  assumes m: "emits m A" and f: "\<And>x. emits (f x) B"
  shows "emits (bindS m f) (conc A B)"
proof (rule emitsI)
  fix s r s'
  assume run: "bindS m f s = (r, s')"
  obtain r1 s1 where ms: "m s = (r1, s1)" by (cases "m s")
  from emitsD [OF m ms] obtain evs1 rest1 where
    a: "evs1 @ rest1 \<in> A" "events s1 = events s @ evs1" "(\<exists>x. r1 = Inr x) \<longrightarrow> rest1 = []"
    by blast
  show "\<exists>evs rest. evs @ rest \<in> conc A B \<and> events s' = events s @ evs \<and>
      ((\<exists>x. r = Inr x) \<longrightarrow> rest = [])"
  proof (cases r1)
    case (Inl e)
    with run ms have eq: "r = Inl e" "s' = s1" by (simp_all add: bindS_def)
    from emits_nonempty [OF f] obtain b where b: "b \<in> B" by blast
    with a(1) have "(evs1 @ rest1) @ b \<in> conc A B"
      unfolding conc_def by blast
    then have "evs1 @ (rest1 @ b) \<in> conc A B"
      by simp
    with a(2) eq show ?thesis by blast
  next
    case (Inr x)
    with run ms have fx: "f x s1 = (r, s')" by (simp add: bindS_def)
    from emitsD [OF f fx] obtain evs2 rest2 where
      b: "evs2 @ rest2 \<in> B" "events s' = events s1 @ evs2" "(\<exists>x. r = Inr x) \<longrightarrow> rest2 = []"
      by blast
    from a(3) Inr have "rest1 = []" by simp
    with a(1) b(1) have "evs1 @ (evs2 @ rest2) \<in> conc A B"
      unfolding conc_def by blast
    then have "(evs1 @ evs2) @ rest2 \<in> conc A B"
      by simp
    moreover have "events s' = events s @ (evs1 @ evs2)"
      using a(2) b(2) by simp
    ultimately show ?thesis using b(3) by blast
  qed
qed

lemma emits_mono: "emits m A \<Longrightarrow> A \<subseteq> B \<Longrightarrow> emits m B"
  unfolding emits_def by blast

lemma emits_list_comp:
  assumes "\<And>x. emits (f x) {[ev x]}"
  shows "emits (list_comp f xs) {map ev xs}"
proof (induction xs)
  case Nil
  show ?case by (simp add: emits_return)
next
  case (Cons x xs)
  have "emits (list_comp f (x # xs)) (conc {[ev x]} (conc {map ev xs} {[]}))"
    unfolding list_comp.simps
    by (intro emits_bind assms Cons.IH emits_return)
  then show ?case by simp
qed

lemma emits_list_comp_silent:
  assumes "\<And>x. emits (f x) {[]}"
  shows "emits (list_comp f xs) {[]}"
proof (induction xs)
  case Nil
  show ?case by (simp add: emits_return)
next
  case (Cons x xs)
  have "emits (list_comp f (x # xs)) (conc {[]} (conc {[]} {[]}))"
    unfolding list_comp.simps
    by (intro emits_bind assms Cons.IH emits_return)
  then show ?case by simp
qed

lemma emits_single_response: "emits (generate_single_response lib qe q) {[Query q]}"
proof -
  have "emits (generate_single_response lib qe q) (conc {[Query q]} {[]})"
    unfolding generate_single_response_def
    by (intro emits_bind emits_call emits_return)
  then show ?thesis by simp
qed

lemma emits_from_dict_table:
  "emits (from_dict lib [(''question'', a), (''answer'', b), (''contexts'', c), (''ground_truth'', d)])
     {[DatasetFromDict ragas_columns]}"
  by (simp add: from_dict_def ragas_columns_def emits_call)

lemma emits_ragas_dataset:
  "emits (generate_ragas_dataset lib qe df)
     (range (\<lambda>qs. map Query qs @ [DatasetFromDict ragas_columns]))"
proof -
  have "emits (generate_ragas_dataset lib qe df)
     (conc {[]} (range (\<lambda>qs. map Query qs @ [DatasetFromDict ragas_columns])))"
    unfolding generate_ragas_dataset_def
  proof (rule emits_bind [OF emits_getitem])
    fix qs
    have "emits
      (bindS (list_comp (\<lambda>q. generate_single_response lib qe q) qs) (\<lambda>responses.
       bindS (list_comp (\<lambda>r. dict_getitem r ''answer'') responses) (\<lambda>answers.
       bindS (list_comp (\<lambda>r. dict_getitem r ''contexts'') responses) (\<lambda>contexts.
       bindS (getitem df ''ground_truth'') (\<lambda>ground_truth.
       from_dict lib [(''question'', qs), (''answer'', answers),
                  (''contexts'', contexts), (''ground_truth'', ground_truth)])))))
      (conc {map Query qs} (conc {[]} (conc {[]} (conc {[]} {[DatasetFromDict ragas_columns]}))))"
      apply (rule emits_bind [OF emits_list_comp [OF emits_single_response]])
      apply (rule emits_bind [OF emits_list_comp_silent [OF emits_dict_getitem]])
      apply (rule emits_bind [OF emits_list_comp_silent [OF emits_dict_getitem]])
      apply (rule emits_bind [OF emits_getitem])
      apply (rule emits_from_dict_table)
      done
    then show "emits
      (bindS (list_comp (\<lambda>q. generate_single_response lib qe q) qs) (\<lambda>responses.
       bindS (list_comp (\<lambda>r. dict_getitem r ''answer'') responses) (\<lambda>answers.
       bindS (list_comp (\<lambda>r. dict_getitem r ''contexts'') responses) (\<lambda>contexts.
       bindS (getitem df ''ground_truth'') (\<lambda>ground_truth.
       from_dict lib [(''question'', qs), (''answer'', answers),
                  (''contexts'', contexts), (''ground_truth'', ground_truth)])))))
      (range (\<lambda>qs. map Query qs @ [DatasetFromDict ragas_columns]))"
      by (rule emits_mono) auto
  qed
  then show ?thesis by simp
qed

lemma emits_build_query_engine:
  "emits (build_query_engine lib documents)
     {[ServiceContextFromDefaults 512, OpenAIEmbedding, FromDocuments, AsQueryEngine 2]}"
proof -
  have "emits (build_query_engine lib documents)
     (conc {[ServiceContextFromDefaults 512]} (conc {[OpenAIEmbedding]}
        (conc {[FromDocuments]} (conc {[AsQueryEngine 2]} {[]}))))"
    unfolding build_query_engine_def
    by (intro emits_bind emits_call emits_return)
  then show ?thesis by simp
qed

lemma emits_dataset_to_pandas: "emits (dataset_to_pandas ds) {[DatasetToPandas]}"
proof -
  have "emits (dataset_to_pandas ds) (conc {[DatasetToPandas]} {[]})"
    unfolding dataset_to_pandas_def
    by (intro emits_bind emits_call emits_new_frame)
  then show ?thesis by simp
qed

lemma emits_notebook: "emits (notebook lib) (range notebook_calls)"
proof -
  have "emits (notebook lib)
    (conc {[GitClone ''https://huggingface.co/datasets/explodinggradients/prompt-engineering-papers'']}
    (conc {[SetEnviron ''OPENAI_API_KEY'' ''YOUR_OPENAI_API_KEY_HERE'']}
    (conc {[SimpleDirectoryReader ''./prompt-engineering-papers'' 2]}
    (conc {[LoadData]}
    (conc {[WithOpenAI]}
    (conc {[GenerateWithLlamaindexDocs 10 distribution]}
    (conc (conc {[TestsetToPandas]} {[]})
    (conc {[]}
    (conc {[NestAsyncioApply]}
    (conc {[ServiceContextFromDefaults 512, OpenAIEmbedding, FromDocuments, AsQueryEngine 2]}
    (conc {[Query question]}
    (conc (range (\<lambda>qs. map Query qs @ [DatasetFromDict ragas_columns]))
    (conc {[DatasetToPandas]}
    (conc {[OpenlayerClient ''YOUR_OPENLAYER_API_KEY_HERE'']}
    (conc {[CreateProject ''My-Rag-Project'' LLM
              ''Evaluating an LLM used for product development.'']}
    (conc (conc {[]} {[AddDataframe validation_dataset_config]})
    (conc {[AddModel model_config]}
    (conc {[Commit ''Initial commit!'']} {[Push]}))))))))))))))))))"
    unfolding notebook_def
    by (intro emits_bind emits_call emits_new_frame emits_read_frame emits_df_head
          emits_build_query_engine emits_single_response emits_ragas_dataset
          emits_dataset_to_pandas)
  then show ?thesis
    by (simp add: notebook_calls_def [abs_def])
qed

lemma notebook_events:
  assumes "notebook lib s = (r, s')"
  shows "\<exists>qs evs rest. notebook_calls qs = evs @ rest \<and> events s' = events s @ evs \<and>
           ((\<exists>x. r = Inr x) \<longrightarrow> rest = [])"
proof -
  from emitsD [OF emits_notebook assms] obtain evs rest where
    a: "evs @ rest \<in> range notebook_calls" "events s' = events s @ evs"
       "(\<exists>x. r = Inr x) \<longrightarrow> rest = []" by blast
  from a(1) obtain qs where "notebook_calls qs = evs @ rest" by auto
  with a(2,3) show ?thesis by blast
qed

lemma demo_notebook_run:
  "fst (notebook demo_sdk init_state) = Inr () \<and>
   events (snd (notebook demo_sdk init_state)) = notebook_calls [PStr ''q1'', PStr ''q2''] \<and>
   frames (snd (notebook demo_sdk init_state)) 0 = demo_frame"
  by (simp add: notebook_def build_query_engine_def dataset_to_pandas_def new_frame_def
       read_frame_def df_head_def generate_ragas_dataset_def generate_single_response_def bindS_def
       getitem_def dict_getitem_def call_def returnS_def from_dict_def from_dict_result_def
       demo_sdk_def
       init_state_def demo_frame_def demo_reply_def outcome_of_def events_def
       notebook_calls_def ragas_columns_def)

subsection \<open>The order of the steps\<close>









lemma growsI:
  assumes "\<And>s r s'. m s = (r, s') \<Longrightarrow>
     next_frame s \<le> next_frame s' \<and> (\<forall>i < next_frame s. frames s' i = frames s i)"
  shows "grows m"
  unfolding grows_def
proof
  fix s
  show "next_frame s \<le> next_frame (snd (m s)) \<and>
          (\<forall>i < next_frame s. frames (snd (m s)) i = frames s i)"
    using assms [of s "fst (m s)" "snd (m s)"] by simp
qed









lemma grows_ragas_dataset: "grows (generate_ragas_dataset lib qe df)"
proof (rule growsI)
  fix s r s'
  assume "generate_ragas_dataset lib qe df s = (r, s')"
  with ragas_dataset_state [of lib qe df s]
  show "next_frame s \<le> next_frame s' \<and> (\<forall>i < next_frame s. frames s' i = frames s i)"
    by simp
qed



















subsection \<open>Credentials\<close>

lemma filter_credential_queries: "filter credential (map Query qs) = []"
  by (induction qs) simp_all

lemma credentials_notebook_calls:
  "filter credential (notebook_calls qs) =
     [SetEnviron ''OPENAI_API_KEY'' ''YOUR_OPENAI_API_KEY_HERE'',
      OpenlayerClient ''YOUR_OPENLAYER_API_KEY_HERE'']"
  by (simp add: notebook_calls_def filter_credential_queries)

text \<open>
  Claim C5. In a run of the notebook that returns, the calls that set a variable of
  the environment or hand a key to a client are exactly two, in this order: the
  assignment of the OpenAI key to \<open>OPENAI_API_KEY\<close> and the construction of
  \<open>OpenlayerClient\<close> with the Openlayer key. A run ended by an exception has made an
  initial part of these two and no other.
\<close>

theorem notebook_credentials:
  assumes "trace s = []" and "notebook lib s = (r, s')"
  shows "\<exists>rest. filter credential (events s') @ rest =
           [SetEnviron ''OPENAI_API_KEY'' ''YOUR_OPENAI_API_KEY_HERE'',
            OpenlayerClient ''YOUR_OPENLAYER_API_KEY_HERE''] \<and>
         ((\<exists>x. r = Inr x) \<longrightarrow> rest = [])"
proof -
  from notebook_events [OF assms(2)] obtain qs evs rest where
    a: "notebook_calls qs = evs @ rest" "events s' = events s @ evs"
       "(\<exists>x. r = Inr x) \<longrightarrow> rest = []" by blast
  from assms(1) a(2) have ev: "events s' = evs"
    by (simp add: events_def)
  have "filter credential evs @ filter credential rest =
           [SetEnviron ''OPENAI_API_KEY'' ''YOUR_OPENAI_API_KEY_HERE'',
            OpenlayerClient ''YOUR_OPENLAYER_API_KEY_HERE'']"
    using credentials_notebook_calls [of qs] a(1) by simp
  moreover have "filter credential rest = []" if "\<exists>x. r = Inr x"
    using that a(3) by simp
  ultimately show ?thesis using ev by blast
qed

theorem notebook_credentials_witness:
  "trace init_state = [] \<and>
   fst (notebook demo_sdk init_state) = Inr () \<and>
   filter credential (events (snd (notebook demo_sdk init_state))) =
     [SetEnviron ''OPENAI_API_KEY'' ''YOUR_OPENAI_API_KEY_HERE'',
      OpenlayerClient ''YOUR_OPENLAYER_API_KEY_HERE'']"
proof -
  have t: "trace init_state = []"
    by (simp add: init_state_def)
  have run: "notebook demo_sdk init_state =
      (fst (notebook demo_sdk init_state), snd (notebook demo_sdk init_state))"
    by simp
  from notebook_credentials [OF t run] demo_notebook_run t
  show ?thesis by auto
qed

subsection \<open>The question type distribution\<close>

text \<open>
  Claim C9. The distribution that the script passes to
  \<open>generate_with_llamaindex_docs\<close> gives \<open>simple\<close> the weight 1/2, \<open>reasoning\<close> 1/4
  and \<open>multi_context\<close> 1/4, and the weights add up to exactly 1. (The three literals
  0.5, 0.25 and 0.25 are dyadic, so the floating-point values are these rationals.)
\<close>

theorem distribution_weights:
  "map fst distribution = [simple, reasoning, multi_context] \<and>
   map_of distribution simple = Some (1 / 2) \<and>
   map_of distribution reasoning = Some (1 / 4) \<and>
   map_of distribution multi_context = Some (1 / 4) \<and>
   sum_list (map snd distribution) = 1 \<and>
   GenerateWithLlamaindexDocs 10 distribution \<in> set (notebook_calls qs)"
  by (simp add: distribution_def notebook_calls_def)

subsection \<open>The uploaded configuration\<close>

lemma prefix_reaches:
  assumes "evs @ rest = P @ a # S" and "x \<in> set evs" and "x \<notin> set P"
  shows "\<exists>S'. evs = P @ a # S'"
proof -
  from assms(1) consider us where "evs = P @ us" "us @ rest = a # S"
    | us where "evs @ us = P"
    by (auto simp: append_eq_append_conv2)
  then show ?thesis
  proof cases
    case 1
    with assms(2,3) have "us \<noteq> []" by auto
    with 1 show ?thesis by (cases us) auto
  next
    case 2
    with assms(2,3) show ?thesis by auto
  qed
qed

lemma notebook_calls_split:
  "notebook_calls qs =
     calls_before_add_model qs @ AddModel model_config # [Commit ''Initial commit!'', Push]"
  by (simp add: notebook_calls_def calls_before_add_model_def)

lemma add_model_first: "AddModel cfg \<notin> set (calls_before_add_model qs)"
  by (auto simp: calls_before_add_model_def)

text \<open>
  Claim C10. In every run of the notebook that reaches \<open>project.add_model\<close>, the
  metadata of the model configuration agrees with the pipeline: its \<open>top_k\<close> is the
  \<open>similarity_top_k\<close> of the one call of \<open>as_query_engine\<close> and its \<open>chunk_size\<close> is
  the \<open>chunk_size\<close> of the one call of \<open>ServiceContext.from_defaults\<close>, which are
  the calls that \<open>build_query_engine\<close> makes; and the question, output, context and
  ground-truth column names of the dataset configuration passed to
  \<open>project.add_dataframe\<close> are, in this order, the columns of the dict given to
  \<open>Dataset.from_dict\<close>, which are the columns of every dataset that
  \<open>generate_ragas_dataset\<close> returns.
\<close>

theorem uploaded_config_consistent:
  assumes "trace s = []" and "notebook lib s = (r, s')"
    and "AddModel cfg \<in> set (events s')"
  shows "\<exists>md k c cols vcfg.
     map_of cfg ''metadata'' = Some (PDict md) \<and>
     AsQueryEngine k \<in> set (events s') \<and>
     map_of md ''top_k'' = Some (PInt (int k)) \<and>
     ServiceContextFromDefaults c \<in> set (events s') \<and>
     map_of md ''chunk_size'' = Some (PInt (int c)) \<and>
     DatasetFromDict cols \<in> set (events s') \<and>
     AddDataframe vcfg \<in> set (events s') \<and>
     map (map_of vcfg) [''questionColumnName'', ''outputColumnName'',
                       ''contextColumnName'', ''groundTruthColumnName''] =
       map (\<lambda>col. Some (PStr col)) cols \<and>
     (\<forall>k'. AsQueryEngine k' \<in> set (events s') \<longrightarrow> k' = k) \<and>
     (\<forall>c'. ServiceContextFromDefaults c' \<in> set (events s') \<longrightarrow> c' = c) \<and>
     (\<forall>cols'. DatasetFromDict cols' \<in> set (events s') \<longrightarrow> cols' = cols) \<and>
     (\<forall>v'. AddDataframe v' \<in> set (events s') \<longrightarrow> v' = vcfg) \<and>
     emits (build_query_engine lib documents)
       {[ServiceContextFromDefaults c, OpenAIEmbedding, FromDocuments, AsQueryEngine k]} \<and>
     (\<forall>ds t'. generate_ragas_dataset lib qe df t = (Inr ds, t') \<longrightarrow> map fst ds = cols)"
proof -
  from notebook_events [OF assms(2)] obtain qs evs rest where
    a: "notebook_calls qs = evs @ rest" "events s' = events s @ evs" by blast
  from assms(1) a(2) have ev: "events s' = evs"
    by (simp add: events_def)
  have sub: "set evs \<subseteq> set (notebook_calls qs)"
    using a(1) by simp
  from assms(3) ev have m: "AddModel cfg \<in> set evs" by simp
  with sub have "AddModel cfg \<in> set (notebook_calls qs)" by blast
  then have cfg: "cfg = model_config"
    by (auto simp: notebook_calls_def)
  from a(1) have "evs @ rest =
      calls_before_add_model qs @ AddModel model_config # [Commit ''Initial commit!'', Push]"
    by (simp add: notebook_calls_split)
  from prefix_reaches [OF this m add_model_first] obtain S' where
    evs: "evs = calls_before_add_model qs @ AddModel model_config # S'" by blast
  have pre: "set (calls_before_add_model qs) \<subseteq> set evs"
    unfolding evs by auto
  have 1: "map_of cfg ''metadata'' =
      Some (PDict [(''top_k'', PInt 2), (''chunk_size'', PInt 512), (''embeddings'', PStr ''OpenAI'')])"
    by (simp add: cfg model_config_def)
  have 2: "AsQueryEngine 2 \<in> set evs" "ServiceContextFromDefaults 512 \<in> set evs"
    "DatasetFromDict ragas_columns \<in> set evs" "AddDataframe validation_dataset_config \<in> set evs"
    using pre by (auto simp: calls_before_add_model_def)
  have 3: "map (map_of validation_dataset_config) [''questionColumnName'', ''outputColumnName'',
                       ''contextColumnName'', ''groundTruthColumnName''] =
       map (\<lambda>col. Some (PStr col)) ragas_columns"
    by (simp add: validation_dataset_config_def ragas_columns_def)
  have 4: "\<forall>k'. AsQueryEngine k' \<in> set evs \<longrightarrow> k' = 2"
    "\<forall>c'. ServiceContextFromDefaults c' \<in> set evs \<longrightarrow> c' = 512"
    "\<forall>cols'. DatasetFromDict cols' \<in> set evs \<longrightarrow> cols' = ragas_columns"
    "\<forall>v'. AddDataframe v' \<in> set evs \<longrightarrow> v' = validation_dataset_config"
    using sub by (auto simp: notebook_calls_def)
  have 5: "map_of [(''top_k'', PInt 2), (''chunk_size'', PInt 512), (''embeddings'', PStr ''OpenAI'')]
             ''top_k'' = Some (PInt (int 2))"
    "map_of [(''top_k'', PInt 2), (''chunk_size'', PInt 512), (''embeddings'', PStr ''OpenAI'')]
             ''chunk_size'' = Some (PInt (int 512))"
    by simp_all
  have 6: "emits (build_query_engine lib documents)
       {[ServiceContextFromDefaults 512, OpenAIEmbedding, FromDocuments, AsQueryEngine 2]}"
    by (rule emits_build_query_engine)
  have 7: "\<forall>ds t'. generate_ragas_dataset lib qe df t = (Inr ds, t') \<longrightarrow>
      map fst ds = ragas_columns"
    by (auto dest!: ragas_dataset_InrD simp: ragas_table_def ragas_columns_def)
  show ?thesis
    unfolding ev using 1 2 3 4 5 6 7 by blast
qed

theorem uploaded_config_consistent_witness:
  "trace init_state = [] \<and>
   AddModel model_config \<in> set (events (snd (notebook demo_sdk init_state))) \<and>
   AsQueryEngine 2 \<in> set (events (snd (notebook demo_sdk init_state))) \<and>
   ServiceContextFromDefaults 512 \<in> set (events (snd (notebook demo_sdk init_state)))"
proof -
  have t: "trace init_state = []"
    by (simp add: init_state_def)
  have run: "notebook demo_sdk init_state =
      (fst (notebook demo_sdk init_state), snd (notebook demo_sdk init_state))"
    by simp
  have m: "AddModel model_config \<in> set (events (snd (notebook demo_sdk init_state)))"
    using demo_notebook_run by (simp add: notebook_calls_def)
  from uploaded_config_consistent [OF t run m] obtain k c where
    "AsQueryEngine k \<in> set (events (snd (notebook demo_sdk init_state)))"
    "ServiceContextFromDefaults c \<in> set (events (snd (notebook demo_sdk init_state)))"
    "\<forall>k'. AsQueryEngine k' \<in> set (events (snd (notebook demo_sdk init_state))) \<longrightarrow> k' = k"
    "\<forall>c'. ServiceContextFromDefaults c' \<in> set (events (snd (notebook demo_sdk init_state))) \<longrightarrow> c' = c"
    by blast
  moreover have "AsQueryEngine 2 \<in> set (events (snd (notebook demo_sdk init_state)))"
    "ServiceContextFromDefaults 512 \<in> set (events (snd (notebook demo_sdk init_state)))"
    using demo_notebook_run by (simp_all add: notebook_calls_def)
  ultimately show ?thesis using t m by blast
qed

end
